theory Spec2Isabelle
  imports Main "HOL-Library.Sublist"
begin

section \<open>Route reconciliation (\<^verbatim>\<open>pyvrp/utils/repair_breaks.py\<close>)\<close>










text \<open>
  \<^verbatim>\<open>remove_break_only_routes\<close>: the loop keeps the pair \<^verbatim>\<open>(filtered, removed)\<close>;
  \<^verbatim>\<open>has_non_break\<close> is \<^verbatim>\<open>any(v not in break_set for v in r)\<close>.
\<close>

definition has_non_break :: "int list \<Rightarrow> int list \<Rightarrow> bool" where
  "has_non_break break_indices r = list_ex (\<lambda>v. v \<notin> set break_indices) r"

definition remove_step :: "int list \<Rightarrow> int list list \<times> nat \<Rightarrow> int list \<Rightarrow> int list list \<times> nat" where
  "remove_step break_indices acc r =
     (case acc of (filtered, removed) \<Rightarrow>
        if \<not> has_non_break break_indices r then (filtered, removed + 1)
        else (filtered @ [r], removed))"

definition remove_break_only_routes :: "int list list \<Rightarrow> int list \<Rightarrow> int list list \<times> nat" where
  "remove_break_only_routes routes break_indices =
     foldl (remove_step break_indices) ([], 0) routes"

text \<open>What the spec calls a break-only route: every visit is a break index.\<close>

definition break_only :: "int list \<Rightarrow> int list \<Rightarrow> bool" where
  "break_only break_indices r = list_all (\<lambda>v. v \<in> set break_indices) r"



section \<open>Break-node synthesis (\<^verbatim>\<open>pyvrp/utils/break_nodes.py\<close>)\<close>

subsection \<open>Decimal text of an index\<close>

text \<open>
  Python's \<^verbatim>\<open>str(n)\<close> for a non-negative integer, as used in \<^verbatim>\<open>f"break_{i}"\<close> and
  \<^verbatim>\<open>str(veh)\<close>: the decimal digits, most significant first, no leading zero.
\<close>

definition digit_char :: "nat \<Rightarrow> char" where
  "digit_char d = char_of (48 + d)"

fun str_nat :: "nat \<Rightarrow> string" where
  "str_nat n = (if n < 10 then [digit_char n] else str_nat (n div 10) @ [digit_char (n mod 10)])"

declare str_nat.simps [simp del]

subsection \<open>The problem instance\<close>

text \<open>
  Modelled from the spec: the classes \<^verbatim>\<open>Client\<close>, \<^verbatim>\<open>ProblemData\<close> and the vehicle
  types live in the compiled module \<^verbatim>\<open>pyvrp._pyvrp\<close>, which is not part of the sources at
  hand. They are taken as plain aggregates, as the spec describes them: a depot with the
  attributes the helper reads; a client with the attributes the helper passes to the
  constructor; a vehicle type with its availability, profile id and display name, all
  other routing parameters being carried along unchanged in \<open>vt_params\<close>. Coordinates
  are only copied, so their numeric type plays no role.
\<close>

record depot =
  depot_x :: int
  depot_y :: int
  depot_service_duration :: int

record client =
  x :: int
  y :: int
  delivery :: "int list"
  pickup :: "int list"
  service_duration :: int
  tw_early :: int
  tw_late :: int
  release_time :: int
  prize :: int
  required :: bool
  group :: "nat option"
  name :: string

record 'p vehicle_type =
  num_available :: nat
  profile :: nat
  vt_name :: string
  vt_params :: 'p

text \<open>A \<^verbatim>\<open>numpy\<close> matrix of integers, as the list of its rows.\<close>

type_synonym matrix = "int list list"

record 'p problem_data =
  depots :: "depot list"
  clients :: "client list"
  vehicle_types :: "'p vehicle_type list"
  distance_matrices :: "matrix list"
  duration_matrices :: "matrix list"

definition num_depots :: "'p problem_data \<Rightarrow> nat" where
  "num_depots data = length (depots data)"

definition num_clients :: "'p problem_data \<Rightarrow> nat" where
  "num_clients data = length (clients data)"

definition num_locations :: "'p problem_data \<Rightarrow> nat" where
  "num_locations data = num_depots data + num_clients data"

definition num_profiles :: "'p problem_data \<Rightarrow> nat" where
  "num_profiles data = length (distance_matrices data)"

definition num_vehicles :: "'p problem_data \<Rightarrow> nat" where
  "num_vehicles data = sum_list (map num_available (vehicle_types data))"

datatype error = IndexError | NoProfile | ValueError | OverflowError

text \<open>
  Modelled from the spec: the per-profile matrix accessors of the container. Asking for a
  profile the instance does not have is an error of its own kind, \<open>NoProfile\<close>.
\<close>

definition distance_matrix :: "'p problem_data \<Rightarrow> nat \<Rightarrow> error + matrix" where
  "distance_matrix data p =
     (if p < length (distance_matrices data) then Inr (distance_matrices data ! p)
      else Inl NoProfile)"

definition duration_matrix :: "'p problem_data \<Rightarrow> nat \<Rightarrow> error + matrix" where
  "duration_matrix data p =
     (if p < length (duration_matrices data) then Inr (duration_matrices data ! p)
      else Inl NoProfile)"

text \<open>
  Modelled from the spec: the checks of the library. The constructor \<^verbatim>\<open>Client(...)\<close> and
  the method \<^verbatim>\<open>data.replace(...)\<close> belong to \<^verbatim>\<open>pyvrp._pyvrp\<close>; both validate what they
  are given and raise when they refuse it. What they refuse is not written in the sources
  at hand, so it is a parameter: \<open>client_check\<close> gives the error the constructor raises
  for its arguments, \<open>replace_check\<close> the error the container raises for the instance
  to be built (\<open>None\<close> when they accept), and \<open>num_load_dimensions\<close> is the container's
  count of load types. An accepted constructor call yields the client with the fields
  as passed. Every theorem below holds for every such library.
\<close>

record 'p library =
  client_check :: "client \<Rightarrow> error option"
  replace_check :: "'p problem_data \<Rightarrow> error option"
  num_load_dimensions :: "'p problem_data \<Rightarrow> nat"

definition Client :: "'p library \<Rightarrow> client \<Rightarrow> error + client" where
  "Client lib args = (case client_check lib args of Some e \<Rightarrow> Inl e | None \<Rightarrow> Inr args)"

definition data_replace :: "'p library \<Rightarrow> 'p problem_data \<Rightarrow> error + 'p problem_data" where
  "data_replace lib new_data =
     (case replace_check lib new_data of Some e \<Rightarrow> Inl e | None \<Rightarrow> Inr new_data)"


text \<open>
  Modelled from the spec: the container's invariant. Every profile has one distance and
  one duration matrix, each of dimension \<open>num_locations \<times> num_locations\<close>. The container
  refuses anything else, so the helpers never see an instance outside \<open>wf_data\<close>; the
  \<^verbatim>\<open>numpy\<close> slice assignments below are modelled for such instances.
\<close>

definition is_square :: "nat \<Rightarrow> matrix \<Rightarrow> bool" where
  "is_square n m \<longleftrightarrow> length m = n \<and> list_all (\<lambda>row. length row = n) m"

definition zero_diagonal :: "matrix \<Rightarrow> bool" where
  "zero_diagonal m \<longleftrightarrow> list_all (\<lambda>i. m ! i ! i = 0) [0..<length m]"

definition wf_data :: "'p problem_data \<Rightarrow> bool" where
  "wf_data data \<longleftrightarrow>
     length (duration_matrices data) = length (distance_matrices data)
     \<and> list_all (is_square (num_locations data)) (distance_matrices data)
     \<and> list_all (is_square (num_locations data)) (duration_matrices data)"

subsection \<open>Matrices\<close>

definition at :: "matrix \<Rightarrow> nat \<Rightarrow> nat \<Rightarrow> int" where
  "at m i j = m ! i ! j"

definition np_full :: "nat \<Rightarrow> int \<Rightarrow> matrix" where
  "np_full n v = replicate n (replicate n v)"

definition np_zeros :: "nat \<Rightarrow> matrix" where
  "np_zeros n = np_full n 0"

text \<open>
  A slice assignment \<^verbatim>\<open>m[rows, cols] = src\<close> keeps the shape of \<open>m\<close> and overwrites the
  selected cells. \<open>sel i j\<close> says whether cell \<open>(i, j)\<close> is selected and \<open>src i j\<close> is the
  value broadcast to it.
\<close>

definition assign :: "(nat \<Rightarrow> nat \<Rightarrow> bool) \<Rightarrow> (nat \<Rightarrow> nat \<Rightarrow> int) \<Rightarrow> matrix \<Rightarrow> matrix" where
  "assign sel src m =
     map (\<lambda>i. map (\<lambda>j. if sel i j then src i j else m ! i ! j) [0..<length (m ! i)])
       [0..<length m]"

text \<open>\<^verbatim>\<open>m[:k, :k] = old\<close>\<close>

definition assign_block :: "nat \<Rightarrow> matrix \<Rightarrow> matrix \<Rightarrow> matrix" where
  "assign_block k old m = assign (\<lambda>i j. i < k \<and> j < k) (\<lambda>i j. at old i j) m"

text \<open>\<^verbatim>\<open>m[k:, :k] = old[0:1, :]\<close>\<close>

definition assign_new_rows :: "nat \<Rightarrow> matrix \<Rightarrow> matrix \<Rightarrow> matrix" where
  "assign_new_rows k old m = assign (\<lambda>i j. k \<le> i \<and> j < k) (\<lambda>i j. at old 0 j) m"

text \<open>\<^verbatim>\<open>m[:k, k:] = old[:, 0:1]\<close>\<close>

definition assign_new_cols :: "nat \<Rightarrow> matrix \<Rightarrow> matrix \<Rightarrow> matrix" where
  "assign_new_cols k old m = assign (\<lambda>i j. i < k \<and> k \<le> j) (\<lambda>i j. at old i 0) m"

text \<open>\<^verbatim>\<open>m[b, :] = v\<close> and \<^verbatim>\<open>m[:, b] = v\<close>\<close>

definition assign_row :: "nat \<Rightarrow> int \<Rightarrow> matrix \<Rightarrow> matrix" where
  "assign_row b v m = assign (\<lambda>i j. i = b) (\<lambda>i j. v) m"

definition assign_col :: "nat \<Rightarrow> int \<Rightarrow> matrix \<Rightarrow> matrix" where
  "assign_col b v m = assign (\<lambda>i j. j = b) (\<lambda>i j. v) m"

text \<open>\<^verbatim>\<open>np.fill_diagonal(m, v)\<close>\<close>

definition fill_diagonal :: "matrix \<Rightarrow> int \<Rightarrow> matrix" where
  "fill_diagonal m v = assign (\<lambda>i j. i = j) (\<lambda>i j. v) m"

subsection \<open>\<^verbatim>\<open>add_per_vehicle_break_nodes\<close>\<close>

text \<open>The body of the loop over the profiles, for one matrix (distance or duration).\<close>

definition expand_matrix :: "bool \<Rightarrow> nat \<Rightarrow> nat \<Rightarrow> matrix \<Rightarrow> matrix" where
  "expand_matrix zero_travel old_num_locations new_num_locations old_mat =
     (let m = np_zeros new_num_locations;
          m = assign_block old_num_locations old_mat m;
          m = (if \<not> zero_travel
               then assign_new_cols old_num_locations old_mat
                      (assign_new_rows old_num_locations old_mat m)
               else m)
      in fill_diagonal m 0)"

text \<open>The loop over the profiles; it stops at the first failing accessor.\<close>

fun profile_loop ::
  "'p problem_data \<Rightarrow> bool \<Rightarrow> nat \<Rightarrow> nat \<Rightarrow> nat list \<Rightarrow> error + (matrix list \<times> matrix list)" where
  "profile_loop data zero_travel old_n new_n [] = Inr ([], [])"
| "profile_loop data zero_travel old_n new_n (p # ps) =
     (case distance_matrix data p of
        Inl e \<Rightarrow> Inl e
      | Inr old_dist \<Rightarrow>
     (case duration_matrix data p of
        Inl e \<Rightarrow> Inl e
      | Inr old_dur \<Rightarrow>
     (case profile_loop data zero_travel old_n new_n ps of
        Inl e \<Rightarrow> Inl e
      | Inr (dists, durs) \<Rightarrow>
          Inr (expand_matrix zero_travel old_n new_n old_dist # dists,
               expand_matrix zero_travel old_n new_n old_dur # durs))))"

text \<open>The arguments of the \<open>i\<close>-th call of the constructor \<^verbatim>\<open>Client(...)\<close>.\<close>

definition break_client :: "depot \<Rightarrow> int \<Rightarrow> int \<Rightarrow> int \<Rightarrow> bool \<Rightarrow> nat \<Rightarrow> client" where
  "break_client dep service early late make_required i =
     \<lparr>x = depot_x dep, y = depot_y dep, delivery = [0], pickup = [0],
      service_duration = service, tw_early = early, tw_late = late,
      release_time = 0, prize = 0, required = make_required, group = None,
      name = ''break_'' @ str_nat i\<rparr>"

text \<open>
  The loop that creates the break clients; it stops at the first call the constructor
  refuses.
\<close>

fun client_loop :: "'p library \<Rightarrow> (nat \<Rightarrow> client) \<Rightarrow> nat list \<Rightarrow> error + client list" where
  "client_loop lib args [] = Inr []"
| "client_loop lib args (i # rest) =
     (case Client lib (args i) of
        Inl e \<Rightarrow> Inl e
      | Inr c \<Rightarrow>
     (case client_loop lib args rest of
        Inl e \<Rightarrow> Inl e
      | Inr break_clients \<Rightarrow> Inr (c # break_clients)))"

definition add_per_vehicle_break_nodes ::
  "'p library \<Rightarrow> 'p problem_data \<Rightarrow> int \<Rightarrow> int \<Rightarrow> bool \<Rightarrow> bool \<Rightarrow> int option
     \<Rightarrow> (int \<times> int) option \<Rightarrow> error + ('p problem_data \<times> int list)" where
  "add_per_vehicle_break_nodes lib data num_breaks depot_idx make_required zero_travel
       break_service break_tw =
     (if num_breaks \<le> 0 then Inr (data, [])
      else if depot_idx < 0 \<or> depot_idx \<ge> int (length (depots data)) then Inl IndexError
      else
        let dep = depots data ! nat depot_idx;
            old_clients = clients data;
            service = (case break_service of None \<Rightarrow> depot_service_duration dep | Some s \<Rightarrow> s);
            default_tw = (11 * 60, 14 * 60);
            early = (case break_tw of None \<Rightarrow> fst default_tw | Some tw \<Rightarrow> fst tw);
            late = (case break_tw of None \<Rightarrow> snd default_tw | Some tw \<Rightarrow> snd tw)
        in case client_loop lib (break_client dep service early late make_required)
                  [0..<nat num_breaks] of
             Inl e \<Rightarrow> Inl e
           | Inr break_clients \<Rightarrow>
               let new_clients = old_clients @ break_clients;
                   old_num_locations = num_locations data;
                   new_num_locations = old_num_locations + nat num_breaks
               in case profile_loop data zero_travel old_num_locations new_num_locations
                         [0..<num_profiles data] of
                    Inl e \<Rightarrow> Inl e
                  | Inr (new_dist_mats, new_dur_mats) \<Rightarrow>
                 (case data_replace lib (data\<lparr>clients := new_clients,
                                             distance_matrices := new_dist_mats,
                                             duration_matrices := new_dur_mats\<rparr>) of
                    Inl e \<Rightarrow> Inl e
                  | Inr new_data \<Rightarrow>
                      let break_client_start = num_locations data;
                          break_indices =
                            map int [break_client_start..<break_client_start + nat num_breaks]
                      in Inr (new_data, break_indices)))"

subsection \<open>\<^verbatim>\<open>add_one_break_per_vehicle\<close>\<close>

text \<open>
  The mask \<^verbatim>\<open>allowed\<close> the source builds for a vehicle: depots, original clients and the
  vehicle's own break node. The source computes it and does not read it again.
\<close>

definition allowed :: "nat \<Rightarrow> nat \<Rightarrow> nat \<Rightarrow> nat \<Rightarrow> bool list" where
  "allowed num_deps old_num_locations new_num_locations veh =
     (let a = replicate new_num_locations False;
          a = map (\<lambda>i. if i < num_deps then True else a ! i) [0..<length a];
          original_client_idxs = [num_deps..<old_num_locations];
          a = map (\<lambda>i. if i \<in> set original_client_idxs then True else a ! i) [0..<length a];
          assigned_break_idx = old_num_locations + veh
      in a[assigned_break_idx := True])"

text \<open>One iteration of the loop that forbids the break nodes of the other vehicles.\<close>

definition forbid :: "int \<Rightarrow> nat \<Rightarrow> nat \<Rightarrow> matrix \<Rightarrow> matrix" where
  "forbid MAX_VALUE assigned_break_idx b m =
     (if b = assigned_break_idx then m
      else assign_col b MAX_VALUE (assign_row b MAX_VALUE m))"

text \<open>
  The body of the loop over the vehicles, for one matrix (distance or duration). The
  sentinel \<^verbatim>\<open>MAX_VALUE\<close> comes from \<^verbatim>\<open>pyvrp.constants\<close>, which is not part of the
  sources at hand; it is a parameter here.
\<close>

definition vehicle_matrix :: "int \<Rightarrow> nat \<Rightarrow> nat \<Rightarrow> matrix \<Rightarrow> nat \<Rightarrow> matrix" where
  "vehicle_matrix MAX_VALUE old_num_locations new_num_locations base veh =
     (let m = base;
          m = (if length m \<noteq> new_num_locations
               then assign_block old_num_locations m (np_full new_num_locations MAX_VALUE)
               else m);
          assigned_break_idx = old_num_locations + veh;
          m = fold (forbid MAX_VALUE assigned_break_idx)
                [old_num_locations..<new_num_locations] m
      in fill_diagonal m 0)"

definition add_one_break_per_vehicle ::
  "'p library \<Rightarrow> int \<Rightarrow> 'p problem_data \<Rightarrow> int \<Rightarrow> int \<times> int \<Rightarrow> int
     \<Rightarrow> error + ('p problem_data \<times> int list)" where
  "add_one_break_per_vehicle lib MAX_VALUE data break_service break_tw depot_idx =
     (let n_vehicles = num_vehicles data in
      if n_vehicles \<le> 0 then Inr (data, [])
      else
        case add_per_vehicle_break_nodes lib data (int n_vehicles) depot_idx True True
               (Some break_service) (Some break_tw) of
          Inl e \<Rightarrow> Inl e
        | Inr (new_data, break_indices) \<Rightarrow>
            let old_num_locations = num_locations data in
            (case distance_matrix new_data 0 of
               Inl e \<Rightarrow> Inl e
             | Inr base_dist \<Rightarrow>
            (case duration_matrix new_data 0 of
               Inl e \<Rightarrow> Inl e
             | Inr base_dur \<Rightarrow>
                 let new_num_locations = num_locations new_data;
                     dist_mats = map (vehicle_matrix MAX_VALUE old_num_locations
                                        new_num_locations base_dist) [0..<n_vehicles];
                     dur_mats = map (vehicle_matrix MAX_VALUE old_num_locations
                                       new_num_locations base_dur) [0..<n_vehicles];
                     orig_vtypes = vehicle_types data;
                     new_vehicle_types =
                       map (\<lambda>veh. (orig_vtypes ! (veh mod length orig_vtypes))
                                     \<lparr>num_available := 1, profile := veh,
                                      vt_name := str_nat veh\<rparr>) [0..<n_vehicles]
                 in case data_replace lib (new_data\<lparr>vehicle_types := new_vehicle_types,
                                                      distance_matrices := dist_mats,
                                                      duration_matrices := dur_mats\<rparr>) of
                      Inl e \<Rightarrow> Inl e
                    | Inr new_data \<Rightarrow>
                        let break_indices =
                              map int [old_num_locations..<old_num_locations + n_vehicles]
                        in Inr (new_data, break_indices))))"

subsection \<open>Closed forms used in the proofs\<close>

text \<open>
  The service duration and time window a break client gets, and the instance the
  synthesizer returns when it succeeds; the lemmas below show that the functions above
  compute them.
\<close>

definition service_of :: "depot \<Rightarrow> int option \<Rightarrow> int" where
  "service_of dep break_service =
     (case break_service of None \<Rightarrow> depot_service_duration dep | Some s \<Rightarrow> s)"

definition tw_of :: "(int \<times> int) option \<Rightarrow> int \<times> int" where
  "tw_of break_tw = (case break_tw of None \<Rightarrow> (660, 840) | Some tw \<Rightarrow> tw)"

definition break_clients :: "'p problem_data \<Rightarrow> nat \<Rightarrow> nat \<Rightarrow> bool \<Rightarrow> int option
    \<Rightarrow> (int \<times> int) option \<Rightarrow> client list" where
  "break_clients d k di mr bsv btw =
     map (break_client (depots d ! di) (service_of (depots d ! di) bsv)
            (fst (tw_of btw)) (snd (tw_of btw)) mr) [0..<k]"

definition synthesized :: "'p problem_data \<Rightarrow> nat \<Rightarrow> nat \<Rightarrow> bool \<Rightarrow> bool \<Rightarrow> int option
    \<Rightarrow> (int \<times> int) option \<Rightarrow> 'p problem_data" where
  "synthesized d k di mr zt bsv btw =
     d\<lparr>clients := clients d @ break_clients d k di mr bsv btw,
       distance_matrices :=
          map (expand_matrix zt (num_locations d) (num_locations d + k)) (distance_matrices d),
       duration_matrices :=
          map (expand_matrix zt (num_locations d) (num_locations d + k)) (duration_matrices d)\<rparr>"

text \<open>The instance the profile builder returns when it succeeds.\<close>

definition per_vehicle :: "int \<Rightarrow> 'p problem_data \<Rightarrow> nat \<Rightarrow> int \<Rightarrow> int \<times> int \<Rightarrow> 'p problem_data" where
  "per_vehicle MAX_VALUE d di bsv btw =
     (let nv = num_vehicles d;
          old_n = num_locations d;
          new_n = old_n + nv;
          s = synthesized d nv di True True (Some bsv) (Some btw)
      in s\<lparr>vehicle_types :=
             map (\<lambda>veh. (vehicle_types d ! (veh mod length (vehicle_types d)))
                           \<lparr>num_available := 1, profile := veh, vt_name := str_nat veh\<rparr>) [0..<nv],
           distance_matrices :=
             map (vehicle_matrix MAX_VALUE old_n new_n (distance_matrices s ! 0)) [0..<nv],
           duration_matrices :=
             map (vehicle_matrix MAX_VALUE old_n new_n (duration_matrices s ! 0)) [0..<nv]\<rparr>)"

text \<open>
  The library accepts what the synthesizer, and what the profile builder, hands to it:
  every constructor call for a break client, and the instance to be built.
\<close>

definition accepts_synthesis :: "'p library \<Rightarrow> 'p problem_data \<Rightarrow> nat \<Rightarrow> nat \<Rightarrow> bool \<Rightarrow> bool
    \<Rightarrow> int option \<Rightarrow> (int \<times> int) option \<Rightarrow> bool" where
  "accepts_synthesis lib d k di mr zt bsv btw \<longleftrightarrow>
     list_all (\<lambda>c. client_check lib c = None) (break_clients d k di mr bsv btw)
     \<and> replace_check lib (synthesized d k di mr zt bsv btw) = None"

definition accepts_profiles :: "'p library \<Rightarrow> int \<Rightarrow> 'p problem_data \<Rightarrow> nat \<Rightarrow> int
    \<Rightarrow> int \<times> int \<Rightarrow> bool" where
  "accepts_profiles lib MAX_VALUE d di bsv btw \<longleftrightarrow>
     accepts_synthesis lib d (num_vehicles d) di True True (Some bsv) (Some btw)
     \<and> replace_check lib (per_vehicle MAX_VALUE d di bsv btw) = None"

subsection \<open>An example instance\<close>

text \<open>
  A library for the examples. Its constructor refuses an inverted time window and a
  negative service duration with \<open>ValueError\<close> and a service duration of \<open>2 ^ 63\<close> or
  more with \<open>OverflowError\<close>; its container takes the load-type count from the first
  client and refuses an instance with a client of another dimension.
\<close>

definition first_client_dimensions :: "'p problem_data \<Rightarrow> nat" where
  "first_client_dimensions pd =
     (case clients pd of [] \<Rightarrow> 0 | c # _ \<Rightarrow> length (delivery c))"

definition lib0 :: "nat library" where
  "lib0 =
     \<lparr>client_check = (\<lambda>c.
          if tw_late c < tw_early c \<or> service_duration c < 0 then Some ValueError
          else if 9223372036854775808 \<le> service_duration c then Some OverflowError
          else None),
      replace_check = (\<lambda>pd.
          if list_all (\<lambda>c. length (delivery c) = first_client_dimensions pd
                           \<and> length (pickup c) = first_client_dimensions pd) (clients pd)
          then None else Some ValueError),
      num_load_dimensions = first_client_dimensions\<rparr>"

text \<open>
  One depot, one client, a fleet of three vehicles (two trucks and a van), one profile. \<open>d0_synth\<close>
  is the instance with two break clients added under the default arguments, and
  \<open>d0_synth_nz\<close> the one with a single break client, \<^verbatim>\<open>zero_travel=False\<close> and
  overridden service duration and time window.
\<close>

definition d0 :: "nat problem_data" where
  "d0 = \<lparr>depots = [\<lparr>depot_x = 3, depot_y = 4, depot_service_duration = 15\<rparr>],
         clients = [\<lparr>x = 1, y = 2, delivery = [5], pickup = [0], service_duration = 10,
                     tw_early = 0, tw_late = 1000, release_time = 0, prize = 0,
                     required = True, group = None, name = ''c1''\<rparr>],
         vehicle_types = [\<lparr>num_available = 2, profile = 0, vt_name = ''truck'', vt_params = 100\<rparr>,
                          \<lparr>num_available = 1, profile = 0, vt_name = ''van'', vt_params = 40\<rparr>],
         distance_matrices = [[[0, 7], [9, 0]]],
         duration_matrices = [[[0, 5], [6, 0]]]\<rparr>"

definition d0_synth :: "nat problem_data" where
  "d0_synth = d0\<lparr>clients := clients d0 @
       [\<lparr>x = 3, y = 4, delivery = [0], pickup = [0], service_duration = 15,
          tw_early = 660, tw_late = 840, release_time = 0, prize = 0,
          required = True, group = None, name = ''break_0''\<rparr>,
        \<lparr>x = 3, y = 4, delivery = [0], pickup = [0], service_duration = 15,
          tw_early = 660, tw_late = 840, release_time = 0, prize = 0,
          required = True, group = None, name = ''break_1''\<rparr>],
     distance_matrices := [[[0, 7, 0, 0], [9, 0, 0, 0], [0, 0, 0, 0], [0, 0, 0, 0]]],
     duration_matrices := [[[0, 5, 0, 0], [6, 0, 0, 0], [0, 0, 0, 0], [0, 0, 0, 0]]]\<rparr>"


definition d0_synth_nz :: "nat problem_data" where
  "d0_synth_nz = d0\<lparr>clients := clients d0 @
       [\<lparr>x = 3, y = 4, delivery = [0], pickup = [0], service_duration = 30,
          tw_early = 100, tw_late = 200, release_time = 0, prize = 0,
          required = False, group = None, name = ''break_0''\<rparr>],
     distance_matrices := [[[0, 7, 0], [9, 0, 9], [0, 7, 0]]],
     duration_matrices := [[[0, 5, 0], [6, 0, 6], [0, 5, 0]]]\<rparr>"


text \<open>
  \<open>d0_final\<close> is the instance the profile builder makes of \<open>d0\<close> with service duration
  20 and time window \<open>(700, 760)\<close>, for the sentinel \<open>MAXV\<close> (the value \<open>2 ^ 44\<close>).
\<close>

definition MAXV :: int where
  "MAXV = 17592186044416"

definition d0_final :: "nat problem_data" where
  "d0_final = d0\<lparr>clients := clients d0 @
       [\<lparr>x = 3, y = 4, delivery = [0], pickup = [0], service_duration = 20,
          tw_early = 700, tw_late = 760, release_time = 0, prize = 0,
          required = True, group = None, name = ''break_0''\<rparr>,
        \<lparr>x = 3, y = 4, delivery = [0], pickup = [0], service_duration = 20,
          tw_early = 700, tw_late = 760, release_time = 0, prize = 0,
          required = True, group = None, name = ''break_1''\<rparr>,
        \<lparr>x = 3, y = 4, delivery = [0], pickup = [0], service_duration = 20,
          tw_early = 700, tw_late = 760, release_time = 0, prize = 0,
          required = True, group = None, name = ''break_2''\<rparr>],
     vehicle_types :=
       [\<lparr>num_available = 1, profile = 0, vt_name = ''0'', vt_params = 100\<rparr>,
        \<lparr>num_available = 1, profile = 1, vt_name = ''1'', vt_params = 40\<rparr>,
        \<lparr>num_available = 1, profile = 2, vt_name = ''2'', vt_params = 100\<rparr>],
     distance_matrices :=
       [[[0, 7, 0, MAXV, MAXV],
          [9, 0, 0, MAXV, MAXV],
          [0, 0, 0, MAXV, MAXV],
          [MAXV, MAXV, MAXV, 0, MAXV],
          [MAXV, MAXV, MAXV, MAXV, 0]],
        [[0, 7, MAXV, 0, MAXV],
          [9, 0, MAXV, 0, MAXV],
          [MAXV, MAXV, 0, MAXV, MAXV],
          [0, 0, MAXV, 0, MAXV],
          [MAXV, MAXV, MAXV, MAXV, 0]],
        [[0, 7, MAXV, MAXV, 0],
          [9, 0, MAXV, MAXV, 0],
          [MAXV, MAXV, 0, MAXV, MAXV],
          [MAXV, MAXV, MAXV, 0, MAXV],
          [0, 0, MAXV, MAXV, 0]]],
     duration_matrices :=
       [[[0, 5, 0, MAXV, MAXV],
          [6, 0, 0, MAXV, MAXV],
          [0, 0, 0, MAXV, MAXV],
          [MAXV, MAXV, MAXV, 0, MAXV],
          [MAXV, MAXV, MAXV, MAXV, 0]],
        [[0, 5, MAXV, 0, MAXV],
          [6, 0, MAXV, 0, MAXV],
          [MAXV, MAXV, 0, MAXV, MAXV],
          [0, 0, MAXV, 0, MAXV],
          [MAXV, MAXV, MAXV, MAXV, 0]],
        [[0, 5, MAXV, MAXV, 0],
          [6, 0, MAXV, MAXV, 0],
          [MAXV, MAXV, 0, MAXV, MAXV],
          [MAXV, MAXV, MAXV, 0, MAXV],
          [0, 0, MAXV, MAXV, 0]]]\<rparr>"


subsection \<open>The matrix invariant\<close>

text \<open>
  Every distance and duration matrix of the instance is square, of the dimension of the
  location count, with a zero diagonal.
\<close>

definition matrices_ok :: "'p problem_data \<Rightarrow> bool" where
  "matrices_ok data \<longleftrightarrow>
     list_all (\<lambda>m. is_square (num_locations data) m \<and> zero_diagonal m)
       (distance_matrices data @ duration_matrices data)"

section \<open>The filter \<^verbatim>\<open>remove_break_only_routes\<close>\<close>

lemma has_non_break_iff: "has_non_break bs r \<longleftrightarrow> \<not> break_only bs r"
  by (induction r) (auto simp: has_non_break_def break_only_def)

lemma remove_loop:
  "foldl (remove_step bs) (acc, n) rs =
     (acc @ filter (\<lambda>r. \<not> break_only bs r) rs, n + length (filter (break_only bs) rs))"
  by (induction rs arbitrary: acc n) (simp_all add: remove_step_def has_non_break_iff)


text \<open>
  Claim C9. For every list of routes and every list of break indices,
  \<^verbatim>\<open>remove_break_only_routes\<close> discards exactly the routes whose every visit is a break
  index and returns the remaining routes with the number of routes discarded. A route
  with no visits is break-only, hence discarded, and an empty route list gives the empty
  list and the count 0.
\<close>

theorem remove_break_only_routes_discards_break_only:
  "remove_break_only_routes rs bs =
     (filter (\<lambda>r. \<not> break_only bs r) rs, length (filter (break_only bs) rs))
   \<and> (break_only bs r \<longleftrightarrow> (\<forall>v \<in> set r. v \<in> set bs))
   \<and> break_only bs []
   \<and> remove_break_only_routes [] bs = ([], 0)"
  by (simp add: remove_break_only_routes_def remove_loop break_only_def list_all_iff)

theorem remove_break_only_routes_discards_break_only_witness:
  "remove_break_only_routes [[4, 5], [1, 4, 2], [], [0]] [4, 5] = ([[1, 4, 2], [0]], 2)
   \<and> break_only [4, 5] [4, 5] \<and> \<not> break_only [4, 5] [1, 4, 2]"
  using remove_break_only_routes_discards_break_only
          [of "[[4, 5], [1, 4, 2], [], [0]]" "[4, 5]" "[4, 5]"]
        remove_break_only_routes_discards_break_only
          [of "[[4, 5], [1, 4, 2], [], [0]]" "[4, 5]" "[1, 4, 2]"]
  by (simp add: break_only_def)

text \<open>
  Claim C10. For every input, the routes \<^verbatim>\<open>remove_break_only_routes\<close> keeps are returned
  unmodified and in their original relative order (the output is a subsequence of the
  input list), and the number of kept routes plus the removed count is the number of
  input routes.
\<close>

theorem remove_break_only_routes_keeps_order_and_count:
  "subseq (fst (remove_break_only_routes rs bs)) rs
   \<and> fst (remove_break_only_routes rs bs) = filter (has_non_break bs) rs
   \<and> length (fst (remove_break_only_routes rs bs)) + snd (remove_break_only_routes rs bs)
       = length rs"
proof -
  have eq: "(\<lambda>r. \<not> break_only bs r) = has_non_break bs"
    by (simp add: fun_eq_iff has_non_break_iff)
  have "length (filter (\<lambda>r. \<not> break_only bs r) rs) + length (filter (break_only bs) rs)
          = length rs"
    using sum_length_filter_compl [of "break_only bs" rs] by simp
  then show ?thesis
    by (simp add: remove_break_only_routes_def remove_loop eq)
qed

theorem remove_break_only_routes_keeps_order_and_count_witness:
  "subseq [[1, 4, 2], [0]] [[4, 5], [1, 4, 2], [], [0 :: int]]
   \<and> fst (remove_break_only_routes [[4, 5], [1, 4, 2], [], [0]] [4, 5]) = [[1, 4, 2], [0]]
   \<and> snd (remove_break_only_routes [[4, 5], [1, 4, 2], [], [0]] [4, 5]) = 2"
  using remove_break_only_routes_keeps_order_and_count
          [of "[[4, 5], [1, 4, 2], [], [0]]" "[4, 5]"]
  by (simp add: has_non_break_def remove_break_only_routes_def remove_step_def)

section \<open>The greedy repair \<^verbatim>\<open>repair_one_break_per_route\<close>\<close>










section \<open>Facts about the model\<close>

subsection \<open>Decimal text is injective\<close>

lemma digit_char_inj: "a < 10 \<Longrightarrow> b < 10 \<Longrightarrow> digit_char a = digit_char b \<Longrightarrow> a = b"
proof -
  assume a: "a < 10" and b: "b < 10" and e: "digit_char a = digit_char b"
  from e have "(of_char (digit_char a) :: nat) = of_char (digit_char b)" by simp
  with a b show ?thesis by (simp add: digit_char_def)
qed

lemma str_nat_nonempty: "str_nat n \<noteq> []"
  by (subst str_nat.simps) simp

lemma str_nat_inj: "str_nat n = str_nat m \<Longrightarrow> n = m"
proof (induction n arbitrary: m rule: str_nat.induct)
  case (1 n)
  show ?case
  proof (cases "n < 10")
    case True
    show ?thesis
    proof (cases "m < 10")
      case m: True
      from "1.prems" True m have "digit_char n = digit_char m"
        by (simp add: str_nat.simps [of n] str_nat.simps [of m])
      with True m show ?thesis by (rule digit_char_inj)
    next
      case m: False
      from "1.prems" True m have "str_nat (m div 10) = []"
        by (simp add: str_nat.simps [of n] str_nat.simps [of m])
      then show ?thesis by (simp add: str_nat_nonempty)
    qed
  next
    case False
    show ?thesis
    proof (cases "m < 10")
      case m: True
      from "1.prems" False m have "str_nat (n div 10) = []"
        by (simp add: str_nat.simps [of n] str_nat.simps [of m])
      then show ?thesis by (simp add: str_nat_nonempty)
    next
      case m: False
      from "1.prems" False m
      have e: "str_nat (n div 10) = str_nat (m div 10)" and d: "digit_char (n mod 10) = digit_char (m mod 10)"
        by (simp_all add: str_nat.simps [of n] str_nat.simps [of m])
      from "1.IH" [OF False e] have q: "n div 10 = m div 10" .
      from d have r: "n mod 10 = m mod 10" by (intro digit_char_inj) simp_all
      from q r show ?thesis by (metis div_mult_mod_eq)
    qed
  qed
qed

lemma inj_str_nat: "inj str_nat"
  by (rule injI) (rule str_nat_inj)

subsection \<open>Shape and cells of assigned matrices\<close>

lemma length_assign [simp]: "length (assign sel src m) = length m"
  by (simp add: assign_def)

lemma length_row_assign [simp]: "i < length m \<Longrightarrow> length (assign sel src m ! i) = length (m ! i)"
  by (simp add: assign_def)

lemma is_square_nth: "is_square n m \<Longrightarrow> i < n \<Longrightarrow> length (m ! i) = n"
  by (simp add: is_square_def list_all_length)

lemma is_square_length: "is_square n m \<Longrightarrow> length m = n"
  by (simp add: is_square_def)

lemma is_square_assign [simp]: "is_square n m \<Longrightarrow> is_square n (assign sel src m)"
  by (simp add: is_square_def list_all_length)

lemma at_assign:
  "is_square n m \<Longrightarrow> i < n \<Longrightarrow> j < n \<Longrightarrow>
   at (assign sel src m) i j = (if sel i j then src i j else at m i j)"
  by (simp add: assign_def at_def is_square_def list_all_length)

lemma is_square_np_full [simp]: "is_square n (np_full n v)"
  by (simp add: is_square_def np_full_def list_all_length)

lemma at_np_full [simp]: "i < n \<Longrightarrow> j < n \<Longrightarrow> at (np_full n v) i j = v"
  by (simp add: at_def np_full_def)

lemma is_square_expand_matrix [simp]: "is_square new_n (expand_matrix zt old_n new_n om)"
  by (simp add: expand_matrix_def Let_def np_zeros_def fill_diagonal_def assign_block_def
      assign_new_rows_def assign_new_cols_def)

lemma at_expand_matrix:
  "i < new_n \<Longrightarrow> j < new_n \<Longrightarrow>
   at (expand_matrix zt old_n new_n om) i j =
     (if i = j then 0
      else if i < old_n \<and> j < old_n then at om i j
      else if \<not> zt \<and> old_n \<le> i \<and> j < old_n then at om 0 j
      else if \<not> zt \<and> i < old_n \<and> old_n \<le> j then at om i 0
      else 0)"
  by (simp add: expand_matrix_def Let_def np_zeros_def fill_diagonal_def assign_block_def
      assign_new_rows_def assign_new_cols_def at_assign [where n = new_n])

lemma zero_diagonal_iff: "is_square n m \<Longrightarrow> zero_diagonal m \<longleftrightarrow> (\<forall>i<n. at m i i = 0)"
  by (auto simp: zero_diagonal_def list_all_iff at_def is_square_def)


subsection \<open>The result of \<^verbatim>\<open>add_per_vehicle_break_nodes\<close>\<close>

lemma profile_loop_ok:
  "length (duration_matrices d) = length (distance_matrices d) \<Longrightarrow>
   \<forall>p \<in> set ps. p < num_profiles d \<Longrightarrow>
   profile_loop d zt old_n new_n ps =
     Inr (map (\<lambda>p. expand_matrix zt old_n new_n (distance_matrices d ! p)) ps,
          map (\<lambda>p. expand_matrix zt old_n new_n (duration_matrices d ! p)) ps)"
  by (induction ps) (simp_all add: distance_matrix_def duration_matrix_def num_profiles_def)

lemma profile_loop_all:
  assumes "length (duration_matrices d) = length (distance_matrices d)"
  shows "profile_loop d zt old_n new_n [0..<num_profiles d] =
     Inr (map (expand_matrix zt old_n new_n) (distance_matrices d),
          map (expand_matrix zt old_n new_n) (duration_matrices d))"
proof -
  have a: "map (\<lambda>p. expand_matrix zt old_n new_n (distance_matrices d ! p)) [0..<num_profiles d]
            = map (expand_matrix zt old_n new_n) (distance_matrices d)"
    unfolding num_profiles_def by (rule nth_equalityI) simp_all
  have b: "map (\<lambda>p. expand_matrix zt old_n new_n (duration_matrices d ! p)) [0..<num_profiles d]
            = map (expand_matrix zt old_n new_n) (duration_matrices d)"
    unfolding num_profiles_def using assms by (intro nth_equalityI) simp_all
  show ?thesis
    using profile_loop_ok [OF assms, of "[0..<num_profiles d]" zt old_n new_n]
    by (simp add: a b)
qed

lemma client_loop_accepts:
  "list_all (\<lambda>i. client_check lib (args i) = None) ns \<Longrightarrow>
   client_loop lib args ns = Inr (map args ns)"
  by (induction ns) (simp_all add: Client_def)

lemma client_loop_result:
  "client_loop lib args ns = Inr cs \<Longrightarrow>
   cs = map args ns \<and> list_all (\<lambda>i. client_check lib (args i) = None) ns"
  by (induction ns arbitrary: cs) (auto simp: Client_def split: option.splits sum.splits)

lemma client_loop_Inr:
  "client_loop lib args ns = Inr cs \<longleftrightarrow>
     cs = map args ns \<and> list_all (\<lambda>i. client_check lib (args i) = None) ns"
  using client_loop_accepts [of lib args ns] client_loop_result [of lib args ns cs] by auto

lemma client_loop_Inl:
  "client_loop lib args ns = Inl e \<Longrightarrow> \<exists>i \<in> set ns. client_check lib (args i) = Some e"
  by (induction ns) (auto simp: Client_def split: option.splits sum.splits)

lemma client_loop_break_clients:
  "client_loop lib (break_client (depots d ! di) (service_of (depots d ! di) bsv)
       (fst (tw_of btw)) (snd (tw_of btw)) mr) [0..<k] = Inr cs \<longleftrightarrow>
     cs = break_clients d k di mr bsv btw
     \<and> list_all (\<lambda>c. client_check lib c = None) (break_clients d k di mr bsv btw)"
  by (simp add: client_loop_Inr break_clients_def list_all_iff)

lemma client_loop_break_clients_Inl:
  "client_loop lib (break_client (depots d ! di) (service_of (depots d ! di) bsv)
       (fst (tw_of btw)) (snd (tw_of btw)) mr) [0..<k] = Inl e \<Longrightarrow>
   \<exists>c \<in> set (break_clients d k di mr bsv btw). client_check lib c = Some e"
  by (drule client_loop_Inl) (auto simp: break_clients_def)

text \<open>
  With at least one break and a valid depot index, the synthesizer is the loop over the
  constructor calls followed by the container's check of the extended instance.
\<close>

lemma add_per_vehicle_eq:
  assumes "length (duration_matrices d) = length (distance_matrices d)"
    and "0 < K" and "0 \<le> di" and "di < int (num_depots d)"
  shows "add_per_vehicle_break_nodes lib d K di mr zt bsv btw =
     (case client_loop lib (break_client (depots d ! nat di)
               (service_of (depots d ! nat di) bsv) (fst (tw_of btw)) (snd (tw_of btw)) mr)
             [0..<nat K] of
        Inl e \<Rightarrow> Inl e
      | Inr cs \<Rightarrow>
          (case replace_check lib (synthesized d (nat K) (nat di) mr zt bsv btw) of
             Some e \<Rightarrow> Inl e
           | None \<Rightarrow> Inr (synthesized d (nat K) (nat di) mr zt bsv btw,
                         map int [num_locations d..<num_locations d + nat K])))"
proof -
  have args:
    "(case bsv of None \<Rightarrow> depot_service_duration (depots d ! nat di) | Some s \<Rightarrow> s)
       = service_of (depots d ! nat di) bsv"
    "(case btw of None \<Rightarrow> fst (660, 840) | Some tw \<Rightarrow> fst tw) = fst (tw_of btw)"
    "(case btw of None \<Rightarrow> snd (660, 840) | Some tw \<Rightarrow> snd tw) = snd (tw_of btw)"
    by (simp_all add: service_of_def tw_of_def split: option.splits)
  show ?thesis
  proof (cases "client_loop lib (break_client (depots d ! nat di)
               (service_of (depots d ! nat di) bsv) (fst (tw_of btw)) (snd (tw_of btw)) mr)
             [0..<nat K]")
    case (Inl e)
    with assms(2-4) show ?thesis
      by (simp add: add_per_vehicle_break_nodes_def num_depots_def Let_def args)
  next
    case (Inr cs)
    then have cs: "cs = break_clients d (nat K) (nat di) mr bsv btw"
      by (simp add: client_loop_break_clients)
    from assms(2-4) Inr show ?thesis
      by (simp add: add_per_vehicle_break_nodes_def num_depots_def Let_def args
          profile_loop_all [OF assms(1)] data_replace_def synthesized_def cs
          split: option.splits)
  qed
qed

lemma add_per_vehicle_ok:
  assumes "length (duration_matrices d) = length (distance_matrices d)"
    and "0 < K" and "0 \<le> di" and "di < int (num_depots d)"
    and "accepts_synthesis lib d (nat K) (nat di) mr zt bsv btw"
  shows "add_per_vehicle_break_nodes lib d K di mr zt bsv btw =
     Inr (synthesized d (nat K) (nat di) mr zt bsv btw,
          map int [num_locations d..<num_locations d + nat K])"
proof -
  from assms(5)
  have "client_loop lib (break_client (depots d ! nat di)
               (service_of (depots d ! nat di) bsv) (fst (tw_of btw)) (snd (tw_of btw)) mr)
             [0..<nat K] = Inr (break_clients d (nat K) (nat di) mr bsv btw)"
    and "replace_check lib (synthesized d (nat K) (nat di) mr zt bsv btw) = None"
    by (simp_all add: accepts_synthesis_def client_loop_break_clients)
  then show ?thesis
    by (simp add: add_per_vehicle_eq [OF assms(1-4)])
qed

lemma wf_d0: "wf_data d0"
  by code_simp

lemma ev_synth:
  "add_per_vehicle_break_nodes lib0 d0 2 0 True True None None = Inr (d0_synth, [2, 3])"
  by code_simp


lemma ev_synth_nz:
  "add_per_vehicle_break_nodes lib0 d0 1 0 False False (Some 30) (Some (100, 200)) =
     Inr (d0_synth_nz, [2])"
  by code_simp

lemma length_break_clients [simp]: "length (break_clients d k di mr bsv btw) = k"
  by (simp add: break_clients_def)

lemma synthesized_fields [simp]:
  "depots (synthesized d k di mr zt bsv btw) = depots d"
  "vehicle_types (synthesized d k di mr zt bsv btw) = vehicle_types d"
  "length (clients (synthesized d k di mr zt bsv btw)) = length (clients d) + k"
  "num_locations (synthesized d k di mr zt bsv btw) = num_locations d + k"
  "num_profiles (synthesized d k di mr zt bsv btw) = num_profiles d"
  "length (distance_matrices (synthesized d k di mr zt bsv btw)) = length (distance_matrices d)"
  "length (duration_matrices (synthesized d k di mr zt bsv btw)) = length (duration_matrices d)"
  by (simp_all add: synthesized_def break_clients_def num_locations_def num_depots_def
      num_clients_def num_profiles_def)

lemma wf_lengths: "wf_data d \<Longrightarrow> length (duration_matrices d) = length (distance_matrices d)"
  by (simp add: wf_data_def)

lemma synthesized_dist:
  "p < length (distance_matrices d) \<Longrightarrow>
   distance_matrices (synthesized d k di mr zt bsv btw) ! p =
     expand_matrix zt (num_locations d) (num_locations d + k) (distance_matrices d ! p)"
  by (simp add: synthesized_def)

lemma synthesized_dur:
  "p < length (duration_matrices d) \<Longrightarrow>
   duration_matrices (synthesized d k di mr zt bsv btw) ! p =
     expand_matrix zt (num_locations d) (num_locations d + k) (duration_matrices d ! p)"
  by (simp add: synthesized_def)



lemma add_per_vehicle_invalid:
  "0 < K \<Longrightarrow> di < 0 \<or> int (num_depots d) \<le> di \<Longrightarrow>
   add_per_vehicle_break_nodes lib d K di mr zt bsv btw = Inl IndexError"
  by (auto simp: add_per_vehicle_break_nodes_def num_depots_def)

lemma add_per_vehicle_inv:
  assumes "wf_data d" and "0 < K"
    and "add_per_vehicle_break_nodes lib d K di mr zt bsv btw = Inr (nd, bis)"
  shows "0 \<le> di \<and> di < int (num_depots d) \<and> nd = synthesized d (nat K) (nat di) mr zt bsv btw
    \<and> bis = map int [num_locations d..<num_locations d + nat K]
    \<and> accepts_synthesis lib d (nat K) (nat di) mr zt bsv btw"
proof (cases "0 \<le> di \<and> di < int (num_depots d)")
  case True
  then have v: "0 \<le> di" "di < int (num_depots d)" by simp_all
  from assms(3) show ?thesis
    unfolding add_per_vehicle_eq [OF wf_lengths [OF assms(1)] assms(2) v]
    using True
    by (auto simp: accepts_synthesis_def client_loop_break_clients
        split: sum.splits option.splits)
next
  case False
  then have "add_per_vehicle_break_nodes lib d K di mr zt bsv btw = Inl IndexError"
    using assms(2) by (intro add_per_vehicle_invalid) auto
  with assms(3) show ?thesis by simp
qed

lemma add_per_vehicle_err:
  assumes "wf_data d" and "0 < K" and "0 \<le> di" and "di < int (num_depots d)"
    and "add_per_vehicle_break_nodes lib d K di mr zt bsv btw = Inl e"
  shows "(\<exists>c \<in> set (break_clients d (nat K) (nat di) mr bsv btw). client_check lib c = Some e)
    \<or> replace_check lib (synthesized d (nat K) (nat di) mr zt bsv btw) = Some e"
  using assms(5)
  unfolding add_per_vehicle_eq [OF wf_lengths [OF assms(1)] assms(2-4)]
  by (auto split: sum.splits option.splits dest: client_loop_break_clients_Inl)


subsection \<open>The result of \<^verbatim>\<open>add_one_break_per_vehicle\<close>\<close>

lemma is_square_forbid: "is_square n m \<Longrightarrow> is_square n (forbid MV a b m)"
  by (simp add: forbid_def assign_row_def assign_col_def)

lemma at_forbid:
  "is_square n m \<Longrightarrow> i < n \<Longrightarrow> j < n \<Longrightarrow>
   at (forbid MV a b m) i j = (if b \<noteq> a \<and> (i = b \<or> j = b) then MV else at m i j)"
  by (simp add: forbid_def assign_row_def assign_col_def at_assign [where n = n])

lemma is_square_fold_forbid: "is_square n m \<Longrightarrow> is_square n (fold (forbid MV a) bs m)"
  by (induction bs arbitrary: m) (simp_all add: is_square_forbid)

lemma at_fold_forbid:
  "is_square n m \<Longrightarrow> i < n \<Longrightarrow> j < n \<Longrightarrow>
   at (fold (forbid MV a) bs m) i j =
     (if (i \<in> set bs \<and> i \<noteq> a) \<or> (j \<in> set bs \<and> j \<noteq> a) then MV else at m i j)"
proof (induction bs arbitrary: m)
  case Nil
  then show ?case by simp
next
  case (Cons b bs)
  from Cons.prems have sq: "is_square n (forbid MV a b m)" by (simp add: is_square_forbid)
  show ?case
    using Cons.IH [OF sq Cons.prems(2,3)] Cons.prems
    by (auto simp: at_forbid)
qed

lemma is_square_vehicle_matrix:
  "is_square new_n base \<Longrightarrow> is_square new_n (vehicle_matrix MV old_n new_n base v)"
  by (simp add: vehicle_matrix_def Let_def fill_diagonal_def is_square_fold_forbid
      is_square_length)

lemma at_vehicle_matrix:
  assumes "is_square new_n base" and "i < new_n" and "j < new_n"
  shows "at (vehicle_matrix MV old_n new_n base v) i j =
     (if i = j then 0
      else if (old_n \<le> i \<and> i \<noteq> old_n + v) \<or> (old_n \<le> j \<and> j \<noteq> old_n + v) then MV
      else at base i j)"
proof -
  have l: "length base = new_n" using assms(1) by (rule is_square_length)
  have sq: "is_square new_n (fold (forbid MV (old_n + v)) [old_n..<new_n] base)"
    using assms(1) by (rule is_square_fold_forbid)
  show ?thesis
    using assms(2,3)
    by (simp add: vehicle_matrix_def Let_def l fill_diagonal_def at_assign [OF sq]
        at_fold_forbid [OF assms(1)])
qed

lemma distance_matrix_synthesized:
  "0 < num_profiles d \<Longrightarrow>
   distance_matrix (synthesized d k di mr zt bsv btw) 0 =
     Inr (distance_matrices (synthesized d k di mr zt bsv btw) ! 0)"
  by (simp add: distance_matrix_def num_profiles_def)

lemma duration_matrix_synthesized:
  "wf_data d \<Longrightarrow> 0 < num_profiles d \<Longrightarrow>
   duration_matrix (synthesized d k di mr zt bsv btw) 0 =
     Inr (duration_matrices (synthesized d k di mr zt bsv btw) ! 0)"
  by (simp add: duration_matrix_def num_profiles_def wf_data_def)

text \<open>
  With at least one vehicle, the profile builder is the synthesizer, the read of the
  profile-0 matrices and the container's check of the final instance.
\<close>

lemma add_one_eq:
  assumes "wf_data d" and "0 < num_vehicles d"
  shows "add_one_break_per_vehicle lib MV d bsv btw di =
     (case add_per_vehicle_break_nodes lib d (int (num_vehicles d)) di True True
             (Some bsv) (Some btw) of
        Inl e \<Rightarrow> Inl e
      | Inr r \<Rightarrow>
          if num_profiles d = 0 then Inl NoProfile
          else (case replace_check lib (per_vehicle MV d (nat di) bsv btw) of
                  Some e \<Rightarrow> Inl e
                | None \<Rightarrow> Inr (per_vehicle MV d (nat di) bsv btw,
                              map int [num_locations d..<num_locations d + num_vehicles d])))"
proof (cases "add_per_vehicle_break_nodes lib d (int (num_vehicles d)) di True True
             (Some bsv) (Some btw)")
  case (Inl e)
  with assms(2) show ?thesis by (simp add: add_one_break_per_vehicle_def)
next
  case (Inr r)
  obtain nd bis where r: "r = (nd, bis)" by (cases r)
  have K: "0 < int (num_vehicles d)" using assms(2) by simp
  from add_per_vehicle_inv [OF assms(1) K Inr [unfolded r]]
  have nd: "nd = synthesized d (num_vehicles d) (nat di) True True (Some bsv) (Some btw)"
    by simp
  show ?thesis
  proof (cases "num_profiles d = 0")
    case True
    then have "distance_matrix nd 0 = Inl NoProfile"
      by (simp add: nd distance_matrix_def num_profiles_def)
    with assms(2) Inr True show ?thesis
      by (simp add: add_one_break_per_vehicle_def r)
  next
    case False
    then have p: "0 < num_profiles d" by simp
    show ?thesis
      using assms(2) Inr False
      by (simp add: add_one_break_per_vehicle_def r nd Let_def
          distance_matrix_synthesized [OF p] duration_matrix_synthesized [OF assms(1) p]
          data_replace_def per_vehicle_def split: option.splits)
  qed
qed

lemma add_one_ok:
  assumes "wf_data d" and "0 < num_vehicles d" and "0 \<le> di" and "di < int (num_depots d)"
    and "0 < num_profiles d" and "accepts_profiles lib MV d (nat di) bsv btw"
  shows "add_one_break_per_vehicle lib MV d bsv btw di =
     Inr (per_vehicle MV d (nat di) bsv btw,
          map int [num_locations d..<num_locations d + num_vehicles d])"
proof -
  have K: "0 < int (num_vehicles d)" using assms(2) by simp
  from assms(6)
  have a: "accepts_synthesis lib d (nat (int (num_vehicles d))) (nat di) True True
      (Some bsv) (Some btw)"
    and b: "replace_check lib (per_vehicle MV d (nat di) bsv btw) = None"
    by (simp_all add: accepts_profiles_def)
  show ?thesis
    using assms(5) b
    by (simp add: add_one_eq [OF assms(1,2)]
        add_per_vehicle_ok [OF wf_lengths [OF assms(1)] K assms(3,4) a])
qed

lemma add_one_inv:
  assumes "wf_data d" and "0 < num_vehicles d"
    and "add_one_break_per_vehicle lib MV d bsv btw di = Inr (nd, bis)"
  shows "0 \<le> di \<and> di < int (num_depots d) \<and> 0 < num_profiles d
    \<and> nd = per_vehicle MV d (nat di) bsv btw
    \<and> bis = map int [num_locations d..<num_locations d + num_vehicles d]
    \<and> accepts_profiles lib MV d (nat di) bsv btw"
proof -
  have K: "0 < int (num_vehicles d)" using assms(2) by simp
  from assms(3) obtain r where
    r: "add_per_vehicle_break_nodes lib d (int (num_vehicles d)) di True True
          (Some bsv) (Some btw) = Inr r"
    unfolding add_one_eq [OF assms(1,2)] by (auto split: sum.splits)
  obtain nd1 bis1 where r1: "r = (nd1, bis1)" by (cases r)
  from add_per_vehicle_inv [OF assms(1) K r [unfolded r1]]
  have di: "0 \<le> di" "di < int (num_depots d)"
    and acc: "accepts_synthesis lib d (num_vehicles d) (nat di) True True (Some bsv) (Some btw)"
    by simp_all
  from assms(3) r show ?thesis
    unfolding add_one_eq [OF assms(1,2)]
    using di acc
    by (auto simp: accepts_profiles_def split: if_splits option.splits)
qed

lemma per_vehicle_fields:
  "depots (per_vehicle MV d di bsv btw) = depots d"
  "clients (per_vehicle MV d di bsv btw) = clients (synthesized d (num_vehicles d) di True True (Some bsv) (Some btw))"
  "num_locations (per_vehicle MV d di bsv btw) = num_locations d + num_vehicles d"
  "num_depots (per_vehicle MV d di bsv btw) = num_depots d"
  "length (vehicle_types (per_vehicle MV d di bsv btw)) = num_vehicles d"
  "length (distance_matrices (per_vehicle MV d di bsv btw)) = num_vehicles d"
  "length (duration_matrices (per_vehicle MV d di bsv btw)) = num_vehicles d"
  "num_profiles (per_vehicle MV d di bsv btw) = num_vehicles d"
  by (simp_all add: per_vehicle_def Let_def synthesized_def num_locations_def num_depots_def
      num_clients_def num_profiles_def)

lemma per_vehicle_vtype:
  "v < num_vehicles d \<Longrightarrow>
   vehicle_types (per_vehicle MV d di bsv btw) ! v =
     (vehicle_types d ! (v mod length (vehicle_types d)))
       \<lparr>num_available := 1, profile := v, vt_name := str_nat v\<rparr>"
  by (simp add: per_vehicle_def Let_def)

lemma per_vehicle_dist:
  "v < num_vehicles d \<Longrightarrow> 0 < num_profiles d \<Longrightarrow>
   distance_matrices (per_vehicle MV d di bsv btw) ! v =
     vehicle_matrix MV (num_locations d) (num_locations d + num_vehicles d)
       (expand_matrix True (num_locations d) (num_locations d + num_vehicles d)
          (distance_matrices d ! 0)) v"
  by (simp add: per_vehicle_def Let_def synthesized_dist num_profiles_def)

lemma per_vehicle_dur:
  "v < num_vehicles d \<Longrightarrow> wf_data d \<Longrightarrow> 0 < num_profiles d \<Longrightarrow>
   duration_matrices (per_vehicle MV d di bsv btw) ! v =
     vehicle_matrix MV (num_locations d) (num_locations d + num_vehicles d)
       (expand_matrix True (num_locations d) (num_locations d + num_vehicles d)
          (duration_matrices d ! 0)) v"
  by (simp add: per_vehicle_def Let_def synthesized_dur num_profiles_def wf_data_def)

lemma at_profile_matrix:
  assumes "i < old_n + nv" and "j < old_n + nv"
  shows "at (vehicle_matrix MV old_n (old_n + nv) (expand_matrix True old_n (old_n + nv) om) v) i j =
     (if i = j then 0
      else if (old_n \<le> i \<and> i \<noteq> old_n + v) \<or> (old_n \<le> j \<and> j \<noteq> old_n + v) then MV
      else if i < old_n \<and> j < old_n then at om i j
      else 0)"
  using assms
  by (simp add: at_vehicle_matrix [OF is_square_expand_matrix] at_expand_matrix)

lemma allowed_mask:
  "v < nv \<Longrightarrow> nd \<le> old_n \<Longrightarrow>
   allowed nd old_n (old_n + nv) v = map (\<lambda>i. i < old_n \<or> i = old_n + v) [0..<old_n + nv]"
  by (rule nth_equalityI) (auto simp: allowed_def Let_def nth_list_update)


lemma num_vehicles_pos_types: "0 < num_vehicles d \<Longrightarrow> vehicle_types d \<noteq> []"
  by (auto simp: num_vehicles_def)

lemma sum_list_ones: "sum_list (map (\<lambda>v. Suc 0) xs) = length xs"
  by (induction xs) simp_all

lemma zero_diagonal_expand_matrix: "zero_diagonal (expand_matrix zt old_n new_n om)"
  by (simp add: zero_diagonal_iff [OF is_square_expand_matrix] at_expand_matrix)

lemma zero_diagonal_vehicle_matrix:
  "is_square new_n base \<Longrightarrow> zero_diagonal (vehicle_matrix MV old_n new_n base v)"
  by (simp add: zero_diagonal_iff [OF is_square_vehicle_matrix] at_vehicle_matrix)

lemma matrices_ok_synthesized: "matrices_ok (synthesized d k di mr zt bsv btw)"
  by (simp add: matrices_ok_def list_all_iff zero_diagonal_expand_matrix)
     (auto simp: synthesized_def zero_diagonal_expand_matrix)

lemma matrices_ok_per_vehicle:
  assumes "wf_data d" and "0 < num_profiles d"
  shows "matrices_ok (per_vehicle MV d di bsv btw)"
  using assms unfolding matrices_ok_def list_all_append
  by (simp add: list_all_length per_vehicle_fields per_vehicle_dist
      per_vehicle_dur is_square_vehicle_matrix zero_diagonal_vehicle_matrix)

lemma ev_final:
  "add_one_break_per_vehicle lib0 MAXV d0 20 (700, 760) 0 = Inr (d0_final, [2, 3, 4])"
  by code_simp

lemma pos_d0: "0 < num_vehicles d0" by code_simp


section \<open>Claims about \<^verbatim>\<open>add_per_vehicle_break_nodes\<close>\<close>

text \<open>
  Claim C4. For a well-formed instance and every \<open>K \<ge> 0\<close>: with \<open>K = 0\<close> the call
  returns the input instance itself and the empty list; with a valid depot index it
  returns whenever the library accepts the break clients and the extended instance; and
  whenever it returns, the depots are unchanged, the client list is the old one followed
  by exactly \<open>K\<close> new clients, and the break-index list has \<open>K\<close> entries, the \<open>i\<close>-th
  being the prior location count (depots plus old clients) plus \<open>i\<close>.
\<close>

theorem add_per_vehicle_break_nodes_appends:
  assumes "wf_data d" and "0 \<le> K"
  shows "(K = 0 \<longrightarrow> add_per_vehicle_break_nodes lib d K di mr zt bsv btw = Inr (d, []))
    \<and> (0 \<le> di \<and> di < int (num_depots d)
         \<and> accepts_synthesis lib d (nat K) (nat di) mr zt bsv btw \<longrightarrow>
         (\<exists>nd bis. add_per_vehicle_break_nodes lib d K di mr zt bsv btw = Inr (nd, bis)))
    \<and> (\<forall>nd bis. add_per_vehicle_break_nodes lib d K di mr zt bsv btw = Inr (nd, bis) \<longrightarrow>
          depots nd = depots d
          \<and> length (clients nd) = length (clients d) + nat K
          \<and> take (length (clients d)) (clients nd) = clients d
          \<and> num_locations nd = num_locations d + nat K
          \<and> length bis = nat K
          \<and> (\<forall>i < nat K. bis ! i = int (num_depots d + num_clients d) + int i))"
proof (cases "K = 0")
  case True
  then show ?thesis by (simp add: add_per_vehicle_break_nodes_def)
next
  case False
  with assms have K: "0 < K" by simp
  have returns: "0 \<le> di \<and> di < int (num_depots d)
         \<and> accepts_synthesis lib d (nat K) (nat di) mr zt bsv btw \<longrightarrow>
         (\<exists>nd bis. add_per_vehicle_break_nodes lib d K di mr zt bsv btw = Inr (nd, bis))"
    using add_per_vehicle_ok [OF wf_lengths [OF assms(1)] K, of di lib mr zt bsv btw] by simp
  have result: "depots nd = depots d
          \<and> length (clients nd) = length (clients d) + nat K
          \<and> take (length (clients d)) (clients nd) = clients d
          \<and> num_locations nd = num_locations d + nat K
          \<and> length bis = nat K
          \<and> (\<forall>i < nat K. bis ! i = int (num_depots d + num_clients d) + int i)"
    if "add_per_vehicle_break_nodes lib d K di mr zt bsv btw = Inr (nd, bis)" for nd bis
    using add_per_vehicle_inv [OF assms(1) K that]
    by (auto simp: num_locations_def synthesized_def num_depots_def num_clients_def)
  from K returns result show ?thesis by blast
qed

theorem add_per_vehicle_break_nodes_appends_witness:
  "wf_data d0 \<and> (0 :: int) \<le> 2
   \<and> accepts_synthesis lib0 d0 (nat 2) (nat 0) True True None None
   \<and> add_per_vehicle_break_nodes lib0 d0 2 0 True True None None = Inr (d0_synth, [2, 3])
   \<and> length (clients d0_synth) = length (clients d0) + nat 2
   \<and> num_locations d0_synth = num_locations d0 + nat 2
   \<and> length [2, 3 :: int] = nat 2
   \<and> add_per_vehicle_break_nodes lib0 d0 0 0 True True None None = Inr (d0, [])"
proof -
  have k: "(0 :: int) \<le> 2" by simp
  have z: "(0 :: int) \<le> 0" by simp
  have a: "accepts_synthesis lib0 d0 (nat 2) (nat 0) True True None None" by code_simp
  from add_per_vehicle_break_nodes_appends [OF wf_d0 k, of lib0 0 True True None None] ev_synth
  have t: "length (clients d0_synth) = length (clients d0) + nat 2
   \<and> num_locations d0_synth = num_locations d0 + nat 2
   \<and> length [2, 3 :: int] = nat 2"
    by blast
  from add_per_vehicle_break_nodes_appends [OF wf_d0 z, of lib0 0 True True None None]
  have n: "add_per_vehicle_break_nodes lib0 d0 0 0 True True None None = Inr (d0, [])"
    by blast
  from wf_d0 k a ev_synth t n show ?thesis by blast
qed

text \<open>
  Claim C6, as the spec states it, for every requested break count: refuted for a
  break count of zero, where an invalid depot index is not looked at and the call returns
  the input instance.
\<close>

theorem add_per_vehicle_break_nodes_no_breaks_no_check:
  "num_depots d0 = 1
   \<and> add_per_vehicle_break_nodes lib0 d0 0 7 True True None None = Inr (d0, [])
   \<and> add_per_vehicle_break_nodes lib0 d0 0 7 True True None None \<noteq> Inl IndexError"
  by (simp add: add_per_vehicle_break_nodes_def num_depots_def d0_def)



text \<open>
  Claim C6, amended. With at least one break requested, a depot index outside
  \<open>[0, num_depots)\<close> fails with \<open>IndexError\<close>, before anything else is computed. With a
  break count of zero or less the call returns the input instance and the empty list
  whatever the depot index. The function checks no other argument itself, but the
  library it calls does: for a well-formed instance, at least one break and a valid depot
  index, the call returns exactly when the constructor accepts every break client and
  the container accepts the extended instance, and an error of the call is the error of
  a refused constructor call or of the refused instance.
\<close>

theorem add_per_vehicle_break_nodes_depot_check:
  "(0 < K \<and> (di < 0 \<or> int (num_depots d) \<le> di) \<longrightarrow>
      add_per_vehicle_break_nodes lib d K di mr zt bsv btw = Inl IndexError)
   \<and> (K \<le> 0 \<longrightarrow> add_per_vehicle_break_nodes lib d K di mr zt bsv btw = Inr (d, []))
   \<and> (wf_data d \<and> 0 < K \<and> 0 \<le> di \<and> di < int (num_depots d) \<longrightarrow>
        ((\<exists>nd bis. add_per_vehicle_break_nodes lib d K di mr zt bsv btw = Inr (nd, bis))
           \<longleftrightarrow> accepts_synthesis lib d (nat K) (nat di) mr zt bsv btw)
        \<and> (\<forall>e. add_per_vehicle_break_nodes lib d K di mr zt bsv btw = Inl e \<longrightarrow>
              (\<exists>c \<in> set (break_clients d (nat K) (nat di) mr bsv btw).
                  client_check lib c = Some e)
              \<or> replace_check lib (synthesized d (nat K) (nat di) mr zt bsv btw) = Some e))"
proof -
  have A: "0 < K \<and> (di < 0 \<or> int (num_depots d) \<le> di) \<longrightarrow>
      add_per_vehicle_break_nodes lib d K di mr zt bsv btw = Inl IndexError"
    using add_per_vehicle_invalid [of K di d lib mr zt bsv btw] by blast
  have B: "K \<le> 0 \<longrightarrow> add_per_vehicle_break_nodes lib d K di mr zt bsv btw = Inr (d, [])"
    by (simp add: add_per_vehicle_break_nodes_def)
  have C: "((\<exists>nd bis. add_per_vehicle_break_nodes lib d K di mr zt bsv btw = Inr (nd, bis))
           \<longleftrightarrow> accepts_synthesis lib d (nat K) (nat di) mr zt bsv btw)
        \<and> (\<forall>e. add_per_vehicle_break_nodes lib d K di mr zt bsv btw = Inl e \<longrightarrow>
              (\<exists>c \<in> set (break_clients d (nat K) (nat di) mr bsv btw).
                  client_check lib c = Some e)
              \<or> replace_check lib (synthesized d (nat K) (nat di) mr zt bsv btw) = Some e)"
    if h: "wf_data d \<and> 0 < K \<and> 0 \<le> di \<and> di < int (num_depots d)"
  proof -
    from h have w: "wf_data d" and K: "0 < K" and v: "0 \<le> di" "di < int (num_depots d)"
      by simp_all
    have "accepts_synthesis lib d (nat K) (nat di) mr zt bsv btw"
      if "add_per_vehicle_break_nodes lib d K di mr zt bsv btw = Inr (nd, bis)" for nd bis
      using add_per_vehicle_inv [OF w K that] by simp
    moreover have "\<exists>nd bis. add_per_vehicle_break_nodes lib d K di mr zt bsv btw = Inr (nd, bis)"
      if "accepts_synthesis lib d (nat K) (nat di) mr zt bsv btw"
      using add_per_vehicle_ok [OF wf_lengths [OF w] K v that] by simp
    moreover have "(\<exists>c \<in> set (break_clients d (nat K) (nat di) mr bsv btw).
                  client_check lib c = Some e)
              \<or> replace_check lib (synthesized d (nat K) (nat di) mr zt bsv btw) = Some e"
      if "add_per_vehicle_break_nodes lib d K di mr zt bsv btw = Inl e" for e
      using add_per_vehicle_err [OF w K v that] .
    ultimately show ?thesis by blast
  qed
  from A B C show ?thesis by blast
qed

theorem add_per_vehicle_break_nodes_depot_check_witness:
  "(0 :: int) < 2 \<and> int (num_depots d0) \<le> 7
   \<and> add_per_vehicle_break_nodes lib0 d0 2 7 True True None None = Inl IndexError
   \<and> add_per_vehicle_break_nodes lib0 d0 2 (- 1) True True None None = Inl IndexError
   \<and> wf_data d0 \<and> (0 :: int) < 1 \<and> (0 :: int) \<le> 0 \<and> 0 < int (num_depots d0)
   \<and> add_per_vehicle_break_nodes lib0 d0 1 0 True True None (Some (200, 100)) = Inl ValueError
   \<and> \<not> accepts_synthesis lib0 d0 (nat 1) (nat 0) True True None (Some (200, 100))"
proof -
  have h: "(0 :: int) < 2" "int (num_depots d0) \<le> 7" "(- 1 :: int) < 0"
    "(0 :: int) < 1" "(0 :: int) \<le> 0" "0 < int (num_depots d0)"
    by (simp_all add: num_depots_def d0_def)
  have e: "add_per_vehicle_break_nodes lib0 d0 1 0 True True None (Some (200, 100))
      = Inl ValueError"
    by code_simp
  from h add_per_vehicle_break_nodes_depot_check [of 2 7 d0 lib0 True True None None]
    add_per_vehicle_break_nodes_depot_check [of 2 "- 1" d0 lib0 True True None None]
  have a: "add_per_vehicle_break_nodes lib0 d0 2 7 True True None None = Inl IndexError"
    "add_per_vehicle_break_nodes lib0 d0 2 (- 1) True True None None = Inl IndexError"
    by blast+
  from h wf_d0 e
    add_per_vehicle_break_nodes_depot_check [of 1 0 d0 lib0 True True None "Some (200, 100)"]
  have b: "\<not> accepts_synthesis lib0 d0 (nat 1) (nat 0) True True None (Some (200, 100))"
    by auto
  from h wf_d0 e a b show ?thesis by blast
qed

text \<open>
  Claim C7. With \<open>K \<ge> 1\<close> and for every profile, let \<open>old_mat\<close> be the distance (or
  duration) matrix of the profile before and \<open>new_mat\<close> the one after. The profiles are
  the same in number. The top-left block of \<open>new_mat\<close> is \<open>old_mat\<close> with the diagonal set
  to zero, hence \<open>old_mat\<close> itself when its diagonal is zero. With \<^verbatim>\<open>zero_travel\<close> every
  cell off the diagonal in a new row or column is zero. Without it, a new row over the
  old columns is row 0 of \<open>old_mat\<close> and a new column over the old rows is column 0 of
  \<open>old_mat\<close>. In both cases the whole diagonal of \<open>new_mat\<close> is zero.
\<close>

theorem add_per_vehicle_break_nodes_matrix_cells:
  assumes "wf_data d" and "0 < K"
    and "add_per_vehicle_break_nodes lib d K di mr zt bsv btw = Inr (nd, bis)"
    and "p < num_profiles d"
    and "(old_mat, new_mat) = (distance_matrices d ! p, distance_matrices nd ! p)
         \<or> (old_mat, new_mat) = (duration_matrices d ! p, duration_matrices nd ! p)"
  defines "old_n \<equiv> num_locations d"
  defines "new_n \<equiv> num_locations d + nat K"
  shows "num_profiles nd = num_profiles d
    \<and> (\<forall>i < old_n. \<forall>j < old_n. at new_mat i j = (if i = j then 0 else at old_mat i j))
    \<and> (zero_diagonal old_mat \<longrightarrow> (\<forall>i < old_n. \<forall>j < old_n. at new_mat i j = at old_mat i j))
    \<and> (zt \<longrightarrow> (\<forall>i < new_n. \<forall>j < new_n. (old_n \<le> i \<or> old_n \<le> j) \<and> i \<noteq> j
                  \<longrightarrow> at new_mat i j = 0))
    \<and> (\<not> zt \<longrightarrow> (\<forall>i < new_n. \<forall>j < old_n. old_n \<le> i \<longrightarrow> at new_mat i j = at old_mat 0 j)
               \<and> (\<forall>i < old_n. \<forall>j < new_n. old_n \<le> j \<longrightarrow> at new_mat i j = at old_mat i 0))
    \<and> (\<forall>i < new_n. at new_mat i i = 0)"
proof -
  from add_per_vehicle_inv [OF assms(1-3)]
  have nd: "nd = synthesized d (nat K) (nat di) mr zt bsv btw" by simp
  from assms(1,4) have pl: "p < length (distance_matrices d)" "p < length (duration_matrices d)"
    by (simp_all add: num_profiles_def wf_data_def)
  from assms(1) pl have sq: "is_square old_n (distance_matrices d ! p)"
      "is_square old_n (duration_matrices d ! p)"
    by (simp_all add: wf_data_def list_all_length old_n_def)
  from assms(5) pl have new: "new_mat = expand_matrix zt old_n new_n old_mat"
    by (auto simp: nd synthesized_dist synthesized_dur old_n_def new_n_def)
  from assms(5) sq have osq: "is_square old_n old_mat" by auto
  have le: "old_n \<le> new_n" by (simp add: old_n_def new_n_def)
  have zd: "zero_diagonal old_mat \<Longrightarrow> i < old_n \<Longrightarrow> at old_mat i i = 0" for i
    using zero_diagonal_iff [OF osq] by simp
  show ?thesis
    using le by (auto simp: nd new at_expand_matrix zd)
qed

theorem add_per_vehicle_break_nodes_matrix_cells_witness:
  "wf_data d0 \<and> (0 :: int) < 1
   \<and> add_per_vehicle_break_nodes lib0 d0 1 0 False False (Some 30) (Some (100, 200)) =
       Inr (d0_synth_nz, [2])
   \<and> 0 < num_profiles d0
   \<and> at (distance_matrices d0_synth_nz ! 0) 2 1 = at (distance_matrices d0 ! 0) 0 1
   \<and> at (distance_matrices d0_synth_nz ! 0) 1 2 = at (distance_matrices d0 ! 0) 1 0
   \<and> at (distance_matrices d0_synth_nz ! 0) 1 2 = 9
   \<and> at (distance_matrices d0_synth_nz ! 0) 2 2 = 0"
proof -
  have k: "(0 :: int) < 1" by simp
  have p: "0 < num_profiles d0" by code_simp
  have n: "num_locations d0 = 2" "nat 1 = 1" by code_simp+
  have v: "at (distance_matrices d0 ! 0) 1 0 = 9" by code_simp
  from add_per_vehicle_break_nodes_matrix_cells [OF wf_d0 k ev_synth_nz p, of "distance_matrices d0 ! 0" "distance_matrices d0_synth_nz ! 0"]
  have t: "at (distance_matrices d0_synth_nz ! 0) 2 1 = at (distance_matrices d0 ! 0) 0 1
     \<and> at (distance_matrices d0_synth_nz ! 0) 1 2 = at (distance_matrices d0 ! 0) 1 0
     \<and> at (distance_matrices d0_synth_nz ! 0) 2 2 = 0"
    by (simp add: n)
  from wf_d0 k ev_synth_nz p t v show ?thesis by simp
qed





section \<open>Claims about \<^verbatim>\<open>add_one_break_per_vehicle\<close>\<close>

text \<open>
  Claim C1, as the spec states it, with the break node of vehicle \<open>v\<close> at flat index
  \<open>old_client_count + v\<close>: refuted on the example instance. It has one depot and one
  client, so for vehicle 1 that index is 2; but the break indices are 2, 3 and 4,
  vehicle 1 owns index 3, and in vehicle 1's matrices row and column 2 hold the sentinel.
\<close>

theorem add_one_break_per_vehicle_break_not_at_client_count:
  "add_one_break_per_vehicle lib0 MAXV d0 20 (700, 760) 0 = Inr (d0_final, [2, 3, 4])
   \<and> num_clients d0 + 1 = 2
   \<and> [2, 3, 4 :: int] ! 1 = 3
   \<and> at (distance_matrices d0_final ! 1) (num_clients d0 + 1) 0 = MAXV
   \<and> at (distance_matrices d0_final ! 1) 0 (num_clients d0 + 1) = MAXV
   \<and> at (duration_matrices d0_final ! 1) (num_clients d0 + 1) 0 = MAXV
   \<and> at (distance_matrices d0_final ! 1) 3 0 = 0
   \<and> MAXV \<noteq> 0"
proof -
  have "num_clients d0 + 1 = 2" by code_simp
  moreover have "[2, 3, 4 :: int] ! 1 = 3" by simp
  moreover have "at (distance_matrices d0_final ! 1) (num_clients d0 + 1) 0 = MAXV" by code_simp
  moreover have "at (distance_matrices d0_final ! 1) 0 (num_clients d0 + 1) = MAXV" by code_simp
  moreover have "at (duration_matrices d0_final ! 1) (num_clients d0 + 1) 0 = MAXV" by code_simp
  moreover have "at (distance_matrices d0_final ! 1) 3 0 = 0" by code_simp
  moreover have "MAXV \<noteq> 0" by (simp add: MAXV_def)
  ultimately show ?thesis using ev_final by blast
qed


text \<open>
  Claim C1, amended. In the per-vehicle profile construction, for every vehicle \<open>v\<close> in
  \<open>[0, num_vehicles)\<close> and for the distance as for the duration matrix \<open>m\<close> of profile
  \<open>v\<close>, built from the matrix \<open>base\<close> of profile 0 of the input: the break node of \<open>v\<close>
  is at flat index \<open>num_depots + old_client_count + v\<close>; the mask the source builds holds
  exactly the depots, the original clients and that break node; between depots and
  original clients the travel values of \<open>base\<close> are kept; the break node of \<open>v\<close> is
  reachable at cost zero from and to every depot and original client; and every other
  break node has the sentinel in its whole row and whole column, except on the diagonal,
  which is zero.
\<close>

theorem add_one_break_per_vehicle_exclusive_break:
  assumes "wf_data d" and "0 < num_vehicles d"
    and "add_one_break_per_vehicle lib MV d bsv btw di = Inr (nd, bis)"
    and "v < num_vehicles d"
    and "(base, m) = (distance_matrices d ! 0, distance_matrices nd ! v)
         \<or> (base, m) = (duration_matrices d ! 0, duration_matrices nd ! v)"
  defines "old_n \<equiv> num_locations d"
  defines "new_n \<equiv> num_locations d + num_vehicles d"
  shows "bis ! v = int (num_depots d + num_clients d + v)
    \<and> num_locations nd = new_n
    \<and> allowed (num_depots nd) old_n new_n v =
        map (\<lambda>i. i < num_depots d \<or> (num_depots d \<le> i \<and> i < old_n) \<or> i = old_n + v)
          [0..<new_n]
    \<and> (\<forall>i < old_n. \<forall>j < old_n. i \<noteq> j \<longrightarrow> at m i j = at base i j)
    \<and> (\<forall>i < old_n. at m (old_n + v) i = 0 \<and> at m i (old_n + v) = 0)
    \<and> at m (old_n + v) (old_n + v) = 0
    \<and> (\<forall>b < new_n. old_n \<le> b \<and> b \<noteq> old_n + v \<longrightarrow>
          at m b b = 0 \<and> (\<forall>j < new_n. j \<noteq> b \<longrightarrow> at m b j = MV \<and> at m j b = MV))"
proof -
  from add_one_inv [OF assms(1-3)]
  have p: "0 < num_profiles d" and nd: "nd = per_vehicle MV d (nat di) bsv btw"
    and bis: "bis = map int [num_locations d..<num_locations d + num_vehicles d]"
    by simp_all
  from assms(5)
  have m: "m = vehicle_matrix MV old_n (old_n + num_vehicles d)
                 (expand_matrix True old_n (old_n + num_vehicles d) base) v"
    by (auto simp: nd per_vehicle_dist [OF assms(4) p] per_vehicle_dur [OF assms(4,1) p]
        old_n_def)
  have le: "num_depots d \<le> old_n" by (simp add: old_n_def num_locations_def)
  have mask: "allowed (num_depots nd) old_n new_n v =
        map (\<lambda>i. i < num_depots d \<or> (num_depots d \<le> i \<and> i < old_n) \<or> i = old_n + v)
          [0..<new_n]"
    using le assms(4)
    by (simp add: nd per_vehicle_fields new_n_def old_n_def [symmetric] allowed_mask) auto
  have b: "bis ! v = int (num_depots d + num_clients d + v)"
    using assms(4) by (simp add: bis num_locations_def)
  have n: "num_locations nd = new_n" by (simp add: nd per_vehicle_fields new_n_def)
  have cells: "(\<forall>i < old_n. \<forall>j < old_n. i \<noteq> j \<longrightarrow> at m i j = at base i j)
    \<and> (\<forall>i < old_n. at m (old_n + v) i = 0 \<and> at m i (old_n + v) = 0)
    \<and> at m (old_n + v) (old_n + v) = 0
    \<and> (\<forall>b < new_n. old_n \<le> b \<and> b \<noteq> old_n + v \<longrightarrow>
          at m b b = 0 \<and> (\<forall>j < new_n. j \<noteq> b \<longrightarrow> at m b j = MV \<and> at m j b = MV))"
    using assms(4)
    by (auto simp: m at_profile_matrix new_n_def old_n_def [symmetric])
  from b n mask cells show ?thesis by blast
qed


theorem add_one_break_per_vehicle_exclusive_break_witness:
  "wf_data d0 \<and> 0 < num_vehicles d0 \<and> 1 < num_vehicles d0
   \<and> add_one_break_per_vehicle lib0 MAXV d0 20 (700, 760) 0 = Inr (d0_final, [2, 3, 4])
   \<and> [2, 3, 4] ! 1 = int (num_depots d0 + num_clients d0 + 1)
   \<and> at (distance_matrices d0_final ! 1) (num_locations d0 + 1) 0 = 0
   \<and> at (distance_matrices d0_final ! 1) 0 (num_locations d0 + 1) = 0
   \<and> at (distance_matrices d0_final ! 1) 2 0 = MAXV
   \<and> at (distance_matrices d0_final ! 1) 1 4 = MAXV"
proof -
  have v: "1 < num_vehicles d0" by code_simp
  have n: "num_locations d0 = 2" "num_vehicles d0 = 3" by code_simp+
  note t = add_one_break_per_vehicle_exclusive_break [OF wf_d0 pos_d0 ev_final v,
      of "distance_matrices d0 ! 0" "distance_matrices d0_final ! 1"]
  from t have a: "[2, 3, 4] ! 1 = int (num_depots d0 + num_clients d0 + 1)" by blast
  from t have "\<forall>i < num_locations d0.
      at (distance_matrices d0_final ! 1) (num_locations d0 + 1) i = 0
      \<and> at (distance_matrices d0_final ! 1) i (num_locations d0 + 1) = 0" by blast
  from this [rule_format, of 0]
  have b: "at (distance_matrices d0_final ! 1) (num_locations d0 + 1) 0 = 0"
      "at (distance_matrices d0_final ! 1) 0 (num_locations d0 + 1) = 0"
    by (simp_all add: n)
  from t have "\<forall>b < num_locations d0 + num_vehicles d0.
       num_locations d0 \<le> b \<and> b \<noteq> num_locations d0 + 1 \<longrightarrow>
          at (distance_matrices d0_final ! 1) b b = 0 \<and>
          (\<forall>j < num_locations d0 + num_vehicles d0. j \<noteq> b \<longrightarrow>
             at (distance_matrices d0_final ! 1) b j = MAXV
             \<and> at (distance_matrices d0_final ! 1) j b = MAXV)" by blast
  then have c: "at (distance_matrices d0_final ! 1) 2 0 = MAXV"
      "at (distance_matrices d0_final ! 1) 1 4 = MAXV"
    by (simp_all add: n)
  from wf_d0 pos_d0 v ev_final a b c show ?thesis by blast
qed


text \<open>
  Claim C3. After \<^verbatim>\<open>add_one_break_per_vehicle\<close> has run on an instance with at least one
  vehicle, the instance has exactly \<open>num_vehicles\<close> vehicle types; the type at position
  \<open>v\<close> is the original type at position \<open>v mod (number of original types)\<close> with
  availability 1, profile id \<open>v\<close> and the name \<^verbatim>\<open>str(v)\<close>, all other parameters
  unchanged; the profile ids are \<open>0, \<dots>, num_vehicles - 1\<close> in order; the names are
  pairwise distinct; and there are as many profiles, and as many vehicles, as before
  there were vehicles.
\<close>

theorem add_one_break_per_vehicle_vehicle_types:
  assumes "wf_data d" and "1 \<le> num_vehicles d"
    and "add_one_break_per_vehicle lib MV d bsv btw di = Inr (nd, bis)"
  shows "vehicle_types d \<noteq> []
    \<and> length (vehicle_types nd) = num_vehicles d
    \<and> (\<forall>v < num_vehicles d.
          vehicle_types nd ! v =
            (vehicle_types d ! (v mod length (vehicle_types d)))
              \<lparr>num_available := 1, profile := v, vt_name := str_nat v\<rparr>
          \<and> num_available (vehicle_types nd ! v) = 1
          \<and> profile (vehicle_types nd ! v) = v
          \<and> vt_params (vehicle_types nd ! v) =
              vt_params (vehicle_types d ! (v mod length (vehicle_types d))))
    \<and> map profile (vehicle_types nd) = [0..<num_vehicles d]
    \<and> distinct (map vt_name (vehicle_types nd))
    \<and> num_profiles nd = num_vehicles d
    \<and> num_vehicles nd = num_vehicles d"
proof -
  from assms(2) have pos: "0 < num_vehicles d" by simp
  from add_one_inv [OF assms(1) pos assms(3)]
  have nd: "nd = per_vehicle MV d (nat di) bsv btw" by simp
  have vt: "vehicle_types nd =
      map (\<lambda>veh. (vehicle_types d ! (veh mod length (vehicle_types d)))
                    \<lparr>num_available := 1, profile := veh, vt_name := str_nat veh\<rparr>)
        [0..<num_vehicles d]"
    by (simp add: nd per_vehicle_def Let_def)
  have prof: "map profile (vehicle_types nd) = [0..<num_vehicles d]"
    by (simp add: vt comp_def)
  have names: "map vt_name (vehicle_types nd) = map str_nat [0..<num_vehicles d]"
    by (simp add: vt comp_def)
  have inj: "inj_on str_nat A" for A
    by (rule inj_onI) (rule str_nat_inj)
  have dist: "distinct (map vt_name (vehicle_types nd))"
    unfolding names by (simp add: distinct_map inj)
  have nv: "num_vehicles nd = num_vehicles d"
    by (simp add: num_vehicles_def [of nd] vt comp_def sum_list_ones)
  have each: "\<forall>v < num_vehicles d.
          vehicle_types nd ! v =
            (vehicle_types d ! (v mod length (vehicle_types d)))
              \<lparr>num_available := 1, profile := v, vt_name := str_nat v\<rparr>
          \<and> num_available (vehicle_types nd ! v) = 1
          \<and> profile (vehicle_types nd ! v) = v
          \<and> vt_params (vehicle_types nd ! v) =
              vt_params (vehicle_types d ! (v mod length (vehicle_types d)))"
    by (simp add: vt)
  have len: "length (vehicle_types nd) = num_vehicles d" by (simp add: vt)
  have np: "num_profiles nd = num_vehicles d" by (simp add: nd per_vehicle_fields)
  from num_vehicles_pos_types [OF pos] len each prof dist np nv show ?thesis by blast
qed

theorem add_one_break_per_vehicle_vehicle_types_witness:
  "wf_data d0 \<and> 1 \<le> num_vehicles d0
   \<and> add_one_break_per_vehicle lib0 MAXV d0 20 (700, 760) 0 = Inr (d0_final, [2, 3, 4])
   \<and> length (vehicle_types d0_final) = 3
   \<and> map profile (vehicle_types d0_final) = [0, 1, 2]
   \<and> vehicle_types d0_final ! 2 = (vehicle_types d0 ! 0)
        \<lparr>num_available := 1, profile := 2, vt_name := ''2''\<rparr>
   \<and> distinct (map vt_name (vehicle_types d0_final))"
proof -
  have p: "1 \<le> num_vehicles d0" by code_simp
  have n: "num_vehicles d0 = 3" "length (vehicle_types d0) = 2" by code_simp+
  have u: "[0..<3] = [0, 1, 2]" by code_simp
  have s: "str_nat 2 = ''2''" by code_simp
  note t = add_one_break_per_vehicle_vehicle_types [OF wf_d0 p ev_final]
  from t have a: "length (vehicle_types d0_final) = 3"
    and b: "map profile (vehicle_types d0_final) = [0, 1, 2]"
    and c: "distinct (map vt_name (vehicle_types d0_final))"
    by (simp_all add: n u)
  from t have "\<forall>v < num_vehicles d0. vehicle_types d0_final ! v =
            (vehicle_types d0 ! (v mod length (vehicle_types d0)))
              \<lparr>num_available := 1, profile := v, vt_name := str_nat v\<rparr>" by blast
  from this [rule_format, of 2]
  have e: "vehicle_types d0_final ! 2 = (vehicle_types d0 ! 0)
        \<lparr>num_available := 1, profile := 2, vt_name := ''2''\<rparr>"
    by (simp add: n s)
  from wf_d0 p ev_final a b c e show ?thesis by blast
qed


text \<open>
  Claim C5. Every distance and duration matrix of the instance returned by
  \<^verbatim>\<open>add_per_vehicle_break_nodes\<close> (whatever the flags and the profile) and by
  \<^verbatim>\<open>add_one_break_per_vehicle\<close> (for every vehicle's profile) is square, of the
  dimension of the new location count, with every diagonal entry zero. Where the call
  is a no-op (no break requested, no vehicle) the instance returned is the input, and
  the property is the input's own.
\<close>

theorem produced_matrices_square_zero_diagonal:
  "(wf_data d \<and> (0 < K \<or> matrices_ok d)
      \<and> add_per_vehicle_break_nodes lib d K di mr zt bsv btw = Inr (nd, bis)
      \<longrightarrow> matrices_ok nd \<and> num_locations nd = num_locations d + nat K
          \<and> length (distance_matrices nd) = num_profiles d
          \<and> length (duration_matrices nd) = num_profiles d)
   \<and> (wf_data d \<and> (0 < num_vehicles d \<or> matrices_ok d)
        \<and> add_one_break_per_vehicle lib MV d bsv' btw' di = Inr (nd', bis')
      \<longrightarrow> matrices_ok nd' \<and> num_locations nd' = num_locations d + num_vehicles d
          \<and> (0 < num_vehicles d \<longrightarrow> length (distance_matrices nd') = num_vehicles d
                \<and> length (duration_matrices nd') = num_vehicles d))
   \<and> (matrices_ok nd \<longleftrightarrow>
        (\<forall>m \<in> set (distance_matrices nd) \<union> set (duration_matrices nd).
           length m = num_locations nd
           \<and> (\<forall>i < num_locations nd. length (m ! i) = num_locations nd \<and> at m i i = 0)))"
proof -
  have A: "wf_data d \<and> (0 < K \<or> matrices_ok d)
      \<and> add_per_vehicle_break_nodes lib d K di mr zt bsv btw = Inr (nd, bis)
      \<longrightarrow> matrices_ok nd \<and> num_locations nd = num_locations d + nat K
          \<and> length (distance_matrices nd) = num_profiles d
          \<and> length (duration_matrices nd) = num_profiles d"
  proof (rule impI)
  assume a: "wf_data d \<and> (0 < K \<or> matrices_ok d)
    \<and> add_per_vehicle_break_nodes lib d K di mr zt bsv btw = Inr (nd, bis)"
  show "matrices_ok nd \<and> num_locations nd = num_locations d + nat K
          \<and> length (distance_matrices nd) = num_profiles d
          \<and> length (duration_matrices nd) = num_profiles d"
  proof (cases "0 < K")
    case True
    with a have nd: "nd = synthesized d (nat K) (nat di) mr zt bsv btw"
      using add_per_vehicle_inv [of d K lib di mr zt bsv btw nd bis] by simp
    from a show ?thesis
      by (simp add: nd matrices_ok_synthesized num_profiles_def wf_data_def)
  next
    case False
    with a have "nd = d" and "matrices_ok d"
      by (auto simp: add_per_vehicle_break_nodes_def)
    with a False show ?thesis by (simp add: num_profiles_def wf_data_def)
  qed
  qed
  have B: "wf_data d \<and> (0 < num_vehicles d \<or> matrices_ok d)
        \<and> add_one_break_per_vehicle lib MV d bsv' btw' di = Inr (nd', bis')
      \<longrightarrow> matrices_ok nd' \<and> num_locations nd' = num_locations d + num_vehicles d
          \<and> (0 < num_vehicles d \<longrightarrow> length (distance_matrices nd') = num_vehicles d
                \<and> length (duration_matrices nd') = num_vehicles d)"
  proof (rule impI)
  assume a: "wf_data d \<and> (0 < num_vehicles d \<or> matrices_ok d)
    \<and> add_one_break_per_vehicle lib MV d bsv' btw' di = Inr (nd', bis')"
  show "matrices_ok nd' \<and> num_locations nd' = num_locations d + num_vehicles d
          \<and> (0 < num_vehicles d \<longrightarrow> length (distance_matrices nd') = num_vehicles d
                \<and> length (duration_matrices nd') = num_vehicles d)"
  proof (cases "0 < num_vehicles d")
    case True
    with a have p: "0 < num_profiles d" and nd: "nd' = per_vehicle MV d (nat di) bsv' btw'"
      using add_one_inv [of d lib MV bsv' btw' di nd' bis'] by simp_all
    from a p show ?thesis by (simp add: nd matrices_ok_per_vehicle per_vehicle_fields)
  next
    case False
    with a have "nd' = d" and "matrices_ok d"
      by (auto simp: add_one_break_per_vehicle_def)
    with False show ?thesis by simp
  qed
  qed
  have C: "matrices_ok nd \<longleftrightarrow>
        (\<forall>m \<in> set (distance_matrices nd) \<union> set (duration_matrices nd).
           length m = num_locations nd
           \<and> (\<forall>i < num_locations nd. length (m ! i) = num_locations nd \<and> at m i i = 0))"
    by (auto simp: matrices_ok_def list_all_iff is_square_def zero_diagonal_def at_def
        all_set_conv_all_nth)
  from A B C show ?thesis by blast
qed

theorem produced_matrices_square_zero_diagonal_witness:
  "wf_data d0 \<and> (0 :: int) < 2 \<and> 0 < num_vehicles d0
   \<and> add_per_vehicle_break_nodes lib0 d0 2 0 True True None None = Inr (d0_synth, [2, 3])
   \<and> add_one_break_per_vehicle lib0 MAXV d0 20 (700, 760) 0 = Inr (d0_final, [2, 3, 4])
   \<and> matrices_ok d0_synth \<and> num_locations d0_synth = 4
   \<and> matrices_ok d0_final \<and> num_locations d0_final = 5
   \<and> length (distance_matrices d0_final) = 3"
proof -
  have k: "(0 :: int) < 2" by simp
  have n: "num_locations d0 = 2" "num_vehicles d0 = 3" by code_simp+
  from produced_matrices_square_zero_diagonal [of d0 2 lib0 0 True True None None d0_synth "[2, 3]" MAXV 20 "(700, 760)"
      d0_final "[2, 3, 4]"] wf_d0 k pos_d0 ev_synth ev_final
  have t: "matrices_ok d0_synth \<and> num_locations d0_synth = 4
   \<and> matrices_ok d0_final \<and> num_locations d0_final = 5
   \<and> length (distance_matrices d0_final) = 3"
    by (simp add: n)
  from wf_d0 k pos_d0 ev_synth ev_final t show ?thesis by blast
qed


end
